theory Spec2Isabelle
  imports Main "HOL-Library.Char_ord" "HOL-Library.List_Lexorder" "HOL-Library.AList"
begin

section \<open>Text\<close>

text \<open>
  A Python \<open>str\<close> is modelled as a \<open>string\<close>; a \<open>char\<close> stands for the code point of
  the same number (U+0000 to U+00FF). The character classes below are the ones the
  script's regular expressions and string methods use, restricted to that range:
  \<open>[A-Z]\<close>, \<open>[a-z]\<close>, \<open>\d\<close> (in this range only the ASCII digits are decimal digits),
  the white space \<open>str.split()\<close> splits on, and \<open>str.lower()\<close>.
\<close>

definition is_upper :: "char \<Rightarrow> bool" where
  "is_upper c = (CHR ''A'' \<le> c \<and> c \<le> CHR ''Z'')"

definition is_lower :: "char \<Rightarrow> bool" where
  "is_lower c = (CHR ''a'' \<le> c \<and> c \<le> CHR ''z'')"

definition is_digit :: "char \<Rightarrow> bool" where
  "is_digit c = (CHR ''0'' \<le> c \<and> c \<le> CHR ''9'')"

text \<open>The complement of the class \<open>[^a-zA-Z0-9]\<close> of \<open>to_safe_id\<close>.\<close>

definition is_alnum :: "char \<Rightarrow> bool" where
  "is_alnum c = (is_lower c \<or> is_upper c \<or> is_digit c)"

text \<open>\<open>str.isspace\<close>: tab to carriage return, the four separators, space, NEL and NBSP.\<close>

definition is_space :: "char \<Rightarrow> bool" where
  "is_space c = ((CHR 0x09 \<le> c \<and> c \<le> CHR 0x0D) \<or> (CHR 0x1C \<le> c \<and> c \<le> CHR 0x20)
     \<or> c = CHR 0x85 \<or> c = CHR 0xA0)"

text \<open>
  \<open>str.lower\<close>: the capital letters of the range are A to Z and U+00C0 to U+00DE without
  the multiplication sign U+00D7; the small letter is 32 further, that is bit 5 set.
\<close>

definition has_lowercase :: "char \<Rightarrow> bool" where
  "has_lowercase c = (is_upper c \<or> (CHR 0xC0 \<le> c \<and> c \<le> CHR 0xDE \<and> c \<noteq> CHR 0xD7))"

definition lower_char :: "char \<Rightarrow> char" where
  "lower_char c = (if has_lowercase c
     then (case c of Char b0 b1 b2 b3 b4 b5 b6 b7 \<Rightarrow> Char b0 b1 b2 b3 b4 True b6 b7)
     else c)"

definition lower :: "string \<Rightarrow> string" where
  "lower s = map lower_char s"

text \<open>\<open>s.replace(a, b)\<close> for one-character \<open>a\<close> and \<open>b\<close>.\<close>

definition replace_char :: "char \<Rightarrow> char \<Rightarrow> string \<Rightarrow> string" where
  "replace_char a b s = map (\<lambda>c. if c = a then b else c) s"

text \<open>
  \<open>re.sub("([A-Z]+)", r" \1", s)\<close>: a space goes in front of every maximal run of capital
  letters. The flag says whether the scan is inside such a run.
\<close>

fun sub_upper_runs :: "bool \<Rightarrow> string \<Rightarrow> string" where
  "sub_upper_runs inside [] = []"
| "sub_upper_runs inside (c # cs) =
     (if is_upper c
      then (if inside then c # sub_upper_runs True cs else CHR '' '' # c # sub_upper_runs True cs)
      else c # sub_upper_runs False cs)"

text \<open>
  \<open>re.sub("([A-Z][a-z]+)", r" \1", s)\<close>: a space goes in front of every capital letter that
  a small letter follows; the small letters of the match start no match of their own.
\<close>

fun sub_capitalized :: "string \<Rightarrow> string" where
  "sub_capitalized (c # d # cs) =
     (if is_upper c \<and> is_lower d
      then CHR '' '' # c # sub_capitalized (d # cs)
      else c # sub_capitalized (d # cs))"
| "sub_capitalized cs = cs"

text \<open>\<open>s.split()\<close>: the maximal runs of characters that are not white space.\<close>

fun split_ws :: "string \<Rightarrow> string \<Rightarrow> string list" where
  "split_ws cur [] = (if cur = [] then [] else [cur])"
| "split_ws cur (c # cs) =
     (if is_space c
      then (if cur = [] then split_ws [] cs else cur # split_ws [] cs)
      else split_ws (cur @ [c]) cs)"

text \<open>\<open>sep.join(ws)\<close>.\<close>

fun join :: "string \<Rightarrow> string list \<Rightarrow> string" where
  "join sep [] = []"
| "join sep [w] = w"
| "join sep (w # ws) = w @ sep @ join sep ws"

text \<open>
  \<open>re.sub(r"[^a-zA-Z0-9]+", "_", s)\<close>: one underscore for every maximal run of characters
  outside the class. The flag says whether the scan is inside such a run.
\<close>

fun sub_unsafe_runs :: "bool \<Rightarrow> string \<Rightarrow> string" where
  "sub_unsafe_runs inside [] = []"
| "sub_unsafe_runs inside (c # cs) =
     (if is_alnum c then c # sub_unsafe_runs False cs
      else if inside then sub_unsafe_runs True cs
      else CHR ''_'' # sub_unsafe_runs True cs)"

text \<open>\<open>s.strip(a)\<close> for a one-character \<open>a\<close>.\<close>

definition strip_char :: "char \<Rightarrow> string \<Rightarrow> string" where
  "strip_char a s = rev (dropWhile (\<lambda>c. c = a) (rev (dropWhile (\<lambda>c. c = a) s)))"

text \<open>
  \<open>re.findall(r"\d+", s)\<close>: the maximal runs of digits, from left to right. The first
  argument is the run the scan is in (empty outside a run).
\<close>

fun digit_runs :: "string \<Rightarrow> string \<Rightarrow> string list" where
  "digit_runs cur [] = (if cur = [] then [] else [cur])"
| "digit_runs cur (c # cs) =
     (if is_digit c then digit_runs (cur @ [c]) cs
      else if cur = [] then digit_runs [] cs
      else cur # digit_runs [] cs)"

definition findall_digits :: "string \<Rightarrow> string list" where
  "findall_digits s = digit_runs [] s"

text \<open>
  An argument that may be \<open>None\<close> is a \<open>string option\<close>. \<open>x or d\<close> and the truth value
  of \<open>x\<close> in a condition: \<open>None\<close> and the empty string are false.
\<close>

definition truthy :: "string option \<Rightarrow> bool" where
  "truthy v = (case v of None \<Rightarrow> False | Some s \<Rightarrow> s \<noteq> [])"

definition or_else :: "string option \<Rightarrow> string \<Rightarrow> string" where
  "or_else v d = (case v of None \<Rightarrow> d | Some s \<Rightarrow> if s = [] then d else s)"

datatype py_error = IndexError | KeyError | AttributeError | OSError

text \<open>\<open>xs[0]\<close>, which raises on the empty list.\<close>

definition item0 :: "'a list \<Rightarrow> py_error + 'a" where
  "item0 xs = (case xs of [] \<Rightarrow> Inl IndexError | x # _ \<Rightarrow> Inr x)"

section \<open>Alias builder\<close>

definition to_snake_case :: "string \<Rightarrow> string" where
  "to_snake_case name =
     lower (join ''_'' (split_ws [] (sub_capitalized (sub_upper_runs False
       (replace_char CHR ''-'' CHR '' '' name)))))"

definition to_safe_id :: "string option \<Rightarrow> string" where
  "to_safe_id v = lower (strip_char CHR ''_'' (sub_unsafe_runs False (or_else v [])))"

text \<open>
  The local variable \<open>serial_suffix\<close> of \<open>build_disk_alias\<close>: the normalised serial
  number, the second half of the alias.
\<close>

definition serial_suffix :: "string option \<Rightarrow> string" where
  "serial_suffix serial_number =
     (if truthy serial_number then to_safe_id serial_number else ''unknown'')"

definition build_disk_alias :: "string option \<Rightarrow> string option \<Rightarrow> string" where
  "build_disk_alias model_id serial_number =
     (let model_part = to_snake_case (or_else model_id ''unknown'')
      in model_part @ ''_'' @ serial_suffix serial_number)"

section \<open>Values\<close>

text \<open>
  The values the script handles, as \<open>json.dumps(..., sort_keys=True)\<close> serialises them:
  \<open>None\<close>, a \<open>str\<close>, an \<open>int\<close>, a \<open>float\<close>, a list and a dictionary. A dictionary
  is a list of keys and values in insertion order. The only floats the scripts make are
  parsed from a run of digits; such a float is kept as the integer it was parsed from.
\<close>

datatype json = JNull | JStr string | JInt int | JFloat int | JList "json list"
  | JObj "(string \<times> json) list"

section \<open>Value coercion\<close>

text \<open>The values of the table \<open>VALUE_TYPES\<close>: the types \<open>float\<close>, \<open>int\<close> and \<open>str\<close>.\<close>

datatype value_type = TFloat | TInt | TStr

definition VALUE_TYPES :: "string \<Rightarrow> value_type option" where
  "VALUE_TYPES n =
     (if n = ''float'' then Some TFloat
      else if n = ''int'' then Some TInt
      else if n = ''str'' then Some TStr
      else None)"

definition DEFAULT_TYPE_NAME :: string where
  "DEFAULT_TYPE_NAME = ''str''"

text \<open>
  \<open>to_number\<close> of \<open>hdsentinel_parser.py\<close> reads \<open>number_values[0]\<close> only when the list
  is not empty. The older script \<open>hdsentinel-parser.py\<close> reads it always.
\<close>

definition to_number :: "string \<Rightarrow> py_error + string" where
  "to_number v =
     (let number_values = findall_digits v
      in if number_values \<noteq> [] then item0 number_values else Inr ''0'')"

definition to_number_legacy :: "string \<Rightarrow> py_error + string" where
  "to_number_legacy v = item0 (findall_digits v)"


text \<open>
  The older script applies the declared type to what \<open>check_if_number\<close> returns,
  \<open>T(check_if_number(value, T))\<close>: \<open>str\<close> of the value is the value, and \<open>int\<close> and
  \<open>float\<close> of a run of digits are the number it writes in base ten (the limit that recent
  interpreters put on the length of the run aside).
\<close>

definition int_of_digits :: "string \<Rightarrow> int" where
  "int_of_digits s = foldl (\<lambda>n c. 10 * n + (of_char c - 48)) 0 s"

definition coerce_legacy :: "value_type \<Rightarrow> string \<Rightarrow> py_error + json" where
  "coerce_legacy value_type v =
     (case value_type of
        TStr \<Rightarrow> Inr (JStr v)
      | TInt \<Rightarrow> map_sum id (\<lambda>s. JInt (int_of_digits s)) (to_number_legacy v)
      | TFloat \<Rightarrow> map_sum id (\<lambda>s. JFloat (int_of_digits s)) (to_number_legacy v))"

section \<open>Sensor template expander\<close>

text \<open>
  \<open>SensorConfig\<close>, the named tuple of a discovery topic and its payload. A template of
  \<open>config.yml\<close> is a sensor name and its options, a dictionary from option name to a
  scalar, or \<open>None\<close> for a template without options; the scalars are kept as strings.
  \<open>raw_config\<close> maps a sensor type to its templates (a missing type and a type without
  templates are both the empty list, as \<open>raw_config.get(sensor_type) or {}\<close> makes them).
\<close>

record SensorConfig =
  topic :: string
  payload :: "(string \<times> json) list"

type_synonym options = "(string \<times> string) list"

type_synonym raw_sensors = "(string \<times> options option) list"

type_synonym raw_config = "(string \<times> raw_sensors) list"

record Config =
  serial_no :: string
  disk_alias :: string
  model :: json
  firmware :: json
  mqtt_state_topic :: string
  availability_topic :: string
  value_types :: "(string \<times> value_type) list"
  sensors :: "SensorConfig list"

definition SENSOR_TYPES :: "string list" where
  "SENSOR_TYPES = [''binary_sensor'', ''sensor'']"

text \<open>
  \<open>key.startswith("_")\<close> and \<open>key.lstrip("_")\<close>. \<open>__pop_internal_config\<close> takes the
  options whose name starts with an underscore out of the template; the result is the
  dictionary of these options, under their names without the underscores and in small
  letters (a later option of the same name overwrites), and the options that stay.
\<close>

definition startswith_underscore :: "string \<Rightarrow> bool" where
  "startswith_underscore k = (case k of [] \<Rightarrow> False | c # _ \<Rightarrow> c = CHR ''_'')"

definition lstrip_underscore :: "string \<Rightarrow> string" where
  "lstrip_underscore k = dropWhile (\<lambda>c. c = CHR ''_'') k"

definition pop_internal_config :: "options \<Rightarrow> options \<times> options" where
  "pop_internal_config cfg =
     (foldl (\<lambda>d (k, v). AList.update (lower (lstrip_underscore k)) v d) []
        (filter (\<lambda>(k, v). startswith_underscore k) cfg),
      filter (\<lambda>(k, v). \<not> startswith_underscore k) cfg)"

text \<open>
  \<open>ceil(1.5 * update_interval)\<close> is \<open>(3 * update_interval + 1) div 2\<close> (the product is
  exact in floating point for every interval below \<open>2^51\<close> seconds). \<open>payload.update(config)\<close>
  writes the options that stayed over the payload, one after the other.
\<close>

definition get_device_descriptor ::
  "int \<Rightarrow> Config \<Rightarrow> string \<Rightarrow> string \<Rightarrow> string \<Rightarrow> options \<Rightarrow> SensorConfig" where
  "get_device_descriptor update_interval self sensor_type name query_key cfg =
     (let topic = ''homeassistant/'' @ sensor_type @ ''/hdsentinel_'' @ disk_alias self @ ''/''
                    @ query_key @ ''/config'';
          payload =
            [(''device'', JObj
                [(''identifiers'', JList [JStr (''hdsentinel_'' @ serial_no self)]),
                 (''manufacturer'', JStr ''hdsentinel''),
                 (''name'', JStr (disk_alias self)),
                 (''model'', model self),
                 (''sw_version'', firmware self)]),
             (''expire_after'', JInt ((3 * update_interval + 1) div 2)),
             (''unique_id'', JStr (''hdsentinel_'' @ serial_no self @ ''_'' @ query_key)),
             (''name'', JStr (disk_alias self @ ''_'' @ name)),
             (''availability_topic'', JStr (availability_topic self)),
             (''state_topic'', JStr (mqtt_state_topic self)),
             (''json_attributes_topic'', JStr (mqtt_state_topic self)),
             (''value_template'', JStr (''{{value_json.'' @ query_key @ ''}}''))]
      in \<lparr>topic = topic,
          payload = foldl (\<lambda>p (k, v). AList.update k (JStr v) p) payload cfg\<rparr>)"

text \<open>A loop whose body may raise: the first exception ends it.\<close>

fun for_each :: "('a \<Rightarrow> 's \<Rightarrow> py_error + 's) \<Rightarrow> 'a list \<Rightarrow> 's \<Rightarrow> py_error + 's" where
  "for_each body [] s = Inr s"
| "for_each body (x # xs) s =
     (case body x s of Inl e \<Rightarrow> Inl e | Inr s' \<Rightarrow> for_each body xs s')"

text \<open>
  The body of the inner loop of \<open>Config.__init__\<close>, for one template: first what it
  computes, the query key, the value type and the descriptor, then what it stores. A type
  name outside \<open>VALUE_TYPES\<close> raises \<open>KeyError\<close>.
\<close>

definition expand_template ::
  "int \<Rightarrow> Config \<Rightarrow> string \<Rightarrow> string \<times> options option
   \<Rightarrow> py_error + string \<times> value_type \<times> SensorConfig" where
  "expand_template update_interval self sensor_type entry =
     (let name = fst entry;
          cfg = (case snd entry of None \<Rightarrow> [] | Some c \<Rightarrow> c);
          (internal_config, rest) = pop_internal_config cfg;
          query_key = (case map_of internal_config ''key'' of None \<Rightarrow> name | Some k \<Rightarrow> k);
          type_name = (case map_of internal_config ''type'' of
                         None \<Rightarrow> DEFAULT_TYPE_NAME | Some t \<Rightarrow> t)
      in case VALUE_TYPES type_name of
           None \<Rightarrow> Inl KeyError
         | Some vt \<Rightarrow>
             Inr (query_key, vt,
                  get_device_descriptor update_interval self sensor_type name query_key rest))"

definition add_sensor ::
  "int \<Rightarrow> string \<Rightarrow> string \<times> options option \<Rightarrow> Config \<Rightarrow> py_error + Config" where
  "add_sensor update_interval sensor_type entry self =
     (case expand_template update_interval self sensor_type entry of
        Inl e \<Rightarrow> Inl e
      | Inr (query_key, vt, descriptor) \<Rightarrow>
          Inr (self\<lparr>value_types := AList.update query_key vt (value_types self),
                    sensors := sensors self @ [descriptor]\<rparr>))"

text \<open>The templates of one sensor type, and the body of the outer loop.\<close>

definition templates_of :: "raw_config \<Rightarrow> string \<Rightarrow> raw_sensors" where
  "templates_of raw sensor_type = (case map_of raw sensor_type of None \<Rightarrow> [] | Some ts \<Rightarrow> ts)"

definition add_sensor_type :: "int \<Rightarrow> raw_config \<Rightarrow> string \<Rightarrow> Config \<Rightarrow> py_error + Config" where
  "add_sensor_type update_interval raw sensor_type self =
     for_each (add_sensor update_interval sensor_type)
       (sort_key fst (templates_of raw sensor_type)) self"

text \<open>
  \<open>Config.__init__\<close>: the fields are set from the arguments, the two collections are
  empty, then the loops run. \<open>loaded\<close> is what opening and loading \<open>config.yml\<close> gives:
  the document, or the exception raised. Every call loads the file again, so the options
  popped from one call's document are not missing in the next call's.
\<close>

definition new_config ::
  "string \<Rightarrow> string \<Rightarrow> json \<Rightarrow> json \<Rightarrow> string \<Rightarrow> string \<Rightarrow> Config" where
  "new_config serial alias_name model_id firmware_rev state_topic status_topic_name =
     \<lparr>serial_no = serial, disk_alias = alias_name, model = model_id,
      firmware = firmware_rev, mqtt_state_topic = state_topic,
      availability_topic = status_topic_name, value_types = [], sensors = []\<rparr>"

definition Config_init ::
  "int \<Rightarrow> py_error + raw_config \<Rightarrow> string \<Rightarrow> string \<Rightarrow> json \<Rightarrow> json \<Rightarrow> string \<Rightarrow> string
   \<Rightarrow> py_error + Config" where
  "Config_init update_interval loaded serial alias_name model_id firmware_rev state_topic
     status_topic_name =
     (case loaded of
        Inl e \<Rightarrow> Inl e
      | Inr raw \<Rightarrow>
          for_each (add_sensor_type update_interval raw) SENSOR_TYPES
            (new_config serial alias_name model_id firmware_rev state_topic
               status_topic_name))"

section \<open>Disk snapshots\<close>

text \<open>
  What \<open>xmltodict\<close> gives for a child element of a disk summary: \<open>None\<close> for an empty
  element, its text, or, for an element with attributes or children and for a repeated
  element, a dictionary or a list, which is kept as the JSON value it is dumped to. Such a
  dictionary or list is never empty.
\<close>

datatype xml_value = XNone | XText string | XNested json

definition to_json :: "xml_value \<Rightarrow> json" where
  "to_json v = (case v of XNone \<Rightarrow> JNull | XText s \<Rightarrow> JStr s | XNested j \<Rightarrow> j)"

type_synonym disk_values = "(string \<times> xml_value) list"

type_synonym snapshot = "(string \<times> disk_values) list"







section \<open>MQTT clients\<close>

text \<open>
  A payload is a text or the serialisation of a JSON value. A message is what
  \<open>paho.mqtt.publish\<close> is given for one topic; the connection options, the same in every
  call, are left out.
\<close>

datatype mqtt_payload = Raw string | Json json

record message =
  msg_topic :: string
  msg_payload :: mqtt_payload
  msg_retain :: bool

datatype publish_call = Single message | Multiple "message list"

text \<open>
  The transport is outside the program. The log lists the calls of \<open>publish.single\<close> and
  \<open>publish.multiple\<close> in the order they are made, each with the serial number of the
  disk whose client made it and with its outcome; the \<open>n\<close>-th call of a run returns
  when \<open>net n\<close> holds and raises otherwise.
\<close>

record event =
  ev_origin :: string
  ev_call :: publish_call
  ev_delivered :: bool

type_synonym transport = "nat \<Rightarrow> bool"

text \<open>
  \<open>publish_single\<close> and \<open>publish_multiple\<close> catch every exception of the transport and
  return.
\<close>

definition publish_single :: "transport \<Rightarrow> string \<Rightarrow> message \<Rightarrow> event list \<Rightarrow> event list" where
  "publish_single net origin m evs =
     evs @ [\<lparr>ev_origin = origin, ev_call = Single m, ev_delivered = net (length evs)\<rparr>]"

definition publish_multiple ::
  "transport \<Rightarrow> string \<Rightarrow> message list \<Rightarrow> event list \<Rightarrow> event list" where
  "publish_multiple net origin payloads evs =
     evs @ [\<lparr>ev_origin = origin, ev_call = Multiple payloads, ev_delivered = net (length evs)\<rparr>]"

record HaCapableMqttClient =
  base_topic :: string
  status_topic :: string
  published_status :: "string option"

definition HaCapableMqttClient_init :: "string \<Rightarrow> HaCapableMqttClient" where
  "HaCapableMqttClient_init base =
     \<lparr>base_topic = base, status_topic = join ''/'' [base, ''availability''],
      published_status = None\<rparr>"

definition get_abs_topic :: "HaCapableMqttClient \<Rightarrow> string list \<Rightarrow> string" where
  "get_abs_topic self relative_topic = join ''/'' (base_topic self # relative_topic)"

text \<open>
  \<open>__publish_status\<close>. The status is recorded after \<open>publish_single\<close> returns, and
  \<open>publish_single\<close> always returns.
\<close>

definition status_message :: "HaCapableMqttClient \<Rightarrow> string \<Rightarrow> message" where
  "status_message self status =
     \<lparr>msg_topic = status_topic self, msg_payload = Raw status, msg_retain = True\<rparr>"

definition publish_status ::
  "transport \<Rightarrow> string \<Rightarrow> string \<Rightarrow> HaCapableMqttClient \<times> event list
   \<Rightarrow> HaCapableMqttClient \<times> event list" where
  "publish_status net origin status cl =
     (let self = fst cl; evs = snd cl
      in if Some status = published_status self then (self, evs)
         else (self\<lparr>published_status := Some status\<rparr>,
               publish_single net origin (status_message self status) evs))"

definition publish_online_status ::
  "transport \<Rightarrow> string \<Rightarrow> HaCapableMqttClient \<times> event list
   \<Rightarrow> HaCapableMqttClient \<times> event list" where
  "publish_online_status net origin cl = publish_status net origin ''online'' cl"

definition publish_offline_status ::
  "transport \<Rightarrow> string \<Rightarrow> HaCapableMqttClient \<times> event list
   \<Rightarrow> HaCapableMqttClient \<times> event list" where
  "publish_offline_status net origin cl = publish_status net origin ''offline'' cl"

section \<open>Publish loop\<close>

text \<open>
  \<open>main_loop\<close> of \<open>hdsentinel_parser.py\<close>: the dictionary \<open>status\<close> has the attribute
  names in small letters and the values as they are (a later attribute of the same name
  in small letters overwrites); it is dumped and published without the retain flag, then
  the client says that the disk is online. The configuration is not read.
\<close>

definition status_of :: "disk_values \<Rightarrow> disk_values" where
  "status_of vals = foldl (\<lambda>d (k, v). AList.update (lower k) v d) [] vals"

text \<open>
  The dictionary \<open>status\<close> of \<open>main_loop\<close> of the older script \<open>hdsentinel-parser.py\<close>,
  for attributes that are texts: every value is coerced to the type the configuration has
  for the attribute name in small letters, \<open>str\<close> when it has none. The first exception
  ends the comprehension.
\<close>

definition status_of_legacy ::
  "(string \<times> value_type) list \<Rightarrow> (string \<times> string) list \<Rightarrow> py_error + (string \<times> json) list" where
  "status_of_legacy types vals =
     for_each
       (\<lambda>entry d.
          (let key = lower (fst entry);
               value_type = (case map_of types key of None \<Rightarrow> TStr | Some t \<Rightarrow> t)
           in case coerce_legacy value_type (snd entry) of
                Inl e \<Rightarrow> Inl e
              | Inr j \<Rightarrow> Inr (AList.update key j d)))
       vals []"

definition state_message :: "string \<Rightarrow> disk_values \<Rightarrow> message" where
  "state_message disk_state_topic vals =
     \<lparr>msg_topic = disk_state_topic,
      msg_payload = Json (JObj (map (\<lambda>(k, v). (k, to_json v)) (status_of vals))),
      msg_retain = False\<rparr>"

definition main_loop ::
  "transport \<Rightarrow> string \<Rightarrow> HaCapableMqttClient \<Rightarrow> string \<Rightarrow> Config \<Rightarrow> disk_values
   \<Rightarrow> event list \<Rightarrow> HaCapableMqttClient \<times> event list" where
  "main_loop net origin mqtt_client disk_state_topic config vals evs =
     publish_online_status net origin
       (mqtt_client,
        publish_single net origin (state_message disk_state_topic vals) evs)"

text \<open>
  The dictionaries \<open>configs\<close> and \<open>mqtt_clients\<close> of \<open>main\<close>, keyed by serial number, and
  the log of the transport.
\<close>

record state =
  configs :: "(string \<times> Config) list"
  mqtt_clients :: "(string \<times> HaCapableMqttClient) list"
  events :: "event list"

text \<open>
  The argument of \<open>build_disk_alias\<close> read from a disk's values: a text, or nothing for an
  empty element; a dictionary or list passes \<open>or\<close> and has no method \<open>replace\<close>.
\<close>

definition str_arg :: "xml_value \<Rightarrow> py_error + string option" where
  "str_arg v = (case v of XNone \<Rightarrow> Inr None | XText s \<Rightarrow> Inr (Some s)
                | XNested j \<Rightarrow> Inl AttributeError)"

definition dict_get :: "disk_values \<Rightarrow> string \<Rightarrow> xml_value \<Rightarrow> xml_value" where
  "dict_get d k dflt = (case map_of d k of None \<Rightarrow> dflt | Some v \<Rightarrow> v)"

text \<open>
  Bootstrapping, the body of the first loop of \<open>main\<close>: an exception anywhere in it is
  logged and the loop goes on with what was stored before.
\<close>

definition register_disk ::
  "transport \<Rightarrow> string \<Rightarrow> int \<Rightarrow> py_error + raw_config \<Rightarrow> state \<Rightarrow> string \<times> disk_values
   \<Rightarrow> state" where
  "register_disk net mqtt_topic update_interval loaded st disk =
     (let disk_serial_number = fst disk; vals = snd disk
      in case str_arg (dict_get vals ''Hard_Disk_Model_ID''
                         (XText (''unknown_'' @ disk_serial_number))) of
           Inl e \<Rightarrow> st
         | Inr model_id \<Rightarrow>
             (let alias_name = build_disk_alias model_id (Some disk_serial_number);
                  mqtt_client = HaCapableMqttClient_init (mqtt_topic @ ''/'' @ alias_name);
                  st1 = st\<lparr>mqtt_clients :=
                          AList.update disk_serial_number mqtt_client (mqtt_clients st)\<rparr>;
                  disk_state_topic = get_abs_topic mqtt_client [''hdsentinel'']
              in case Config_init update_interval loaded disk_serial_number alias_name
                        (to_json (dict_get vals ''Hard_Disk_Model_ID'' (XText ''Unknown'')))
                        (to_json (dict_get vals ''Firmware_Revision'' (XText ''Unknown'')))
                        disk_state_topic (status_topic mqtt_client) of
                   Inl e \<Rightarrow> st1
                 | Inr config \<Rightarrow>
                     (let discovery_msgs =
                            map (\<lambda>sensor. \<lparr>msg_topic = topic sensor,
                                           msg_payload = Json (JObj (payload sensor)),
                                           msg_retain = True\<rparr>) (sensors config)
                      in st1\<lparr>events := publish_multiple net disk_serial_number discovery_msgs
                                          (events st1),
                             configs := AList.update disk_serial_number config (configs st1)\<rparr>)))"

definition bootstrap ::
  "transport \<Rightarrow> string \<Rightarrow> int \<Rightarrow> py_error + raw_config \<Rightarrow> snapshot \<Rightarrow> state" where
  "bootstrap net mqtt_topic update_interval loaded disks =
     foldl (register_disk net mqtt_topic update_interval loaded)
       \<lparr>configs = [], mqtt_clients = [], events = []\<rparr> disks"

text \<open>
  Steady, the body of the loop over the fresh snapshot: a disk without a configuration is
  skipped; a configured disk without a client gets a new one; then \<open>main_loop\<close> runs.
\<close>

definition client_for :: "string \<Rightarrow> state \<Rightarrow> string \<Rightarrow> Config \<Rightarrow> HaCapableMqttClient" where
  "client_for mqtt_topic st disk_serial_number config =
     (case map_of (mqtt_clients st) disk_serial_number of
        Some c \<Rightarrow> c
      | None \<Rightarrow> HaCapableMqttClient_init (mqtt_topic @ ''/'' @ disk_alias config))"

definition process_disk :: "transport \<Rightarrow> string \<Rightarrow> state \<Rightarrow> string \<times> disk_values \<Rightarrow> state" where
  "process_disk net mqtt_topic st disk =
     (let disk_serial_number = fst disk; vals = snd disk
      in case map_of (configs st) disk_serial_number of
           None \<Rightarrow> st
         | Some config \<Rightarrow>
             (let mqtt_client = client_for mqtt_topic st disk_serial_number config;
                  disk_state_topic = get_abs_topic mqtt_client [''hdsentinel''];
                  (mqtt_client', evs) =
                     main_loop net disk_serial_number mqtt_client disk_state_topic config vals
                       (events st)
              in st\<lparr>mqtt_clients :=
                      AList.update disk_serial_number mqtt_client' (mqtt_clients st),
                    events := evs\<rparr>))"

text \<open>
  One cycle of the loop: \<open>get_disks\<close> gives a snapshot or raises, and then the cycle does
  nothing. The disks of the snapshot are visited in its order; the known disks that are
  not in the snapshot are not visited.
\<close>

definition steady_cycle :: "transport \<Rightarrow> string \<Rightarrow> state \<Rightarrow> py_error + snapshot \<Rightarrow> state" where
  "steady_cycle net mqtt_topic st polled =
     (case polled of Inl e \<Rightarrow> st | Inr disks \<Rightarrow> foldl (process_disk net mqtt_topic) st disks)"

text \<open>
  Draining, the \<open>finally\<close> block: every client of \<open>mqtt_clients\<close>, in order, is asked to
  publish its offline status.
\<close>

fun drain_clients ::
  "transport \<Rightarrow> (string \<times> HaCapableMqttClient) list \<Rightarrow> event list
   \<Rightarrow> (string \<times> HaCapableMqttClient) list \<times> event list" where
  "drain_clients net [] evs = ([], evs)"
| "drain_clients net ((serial, client) # rest) evs =
     (let (client', evs') = publish_offline_status net serial (client, evs);
          (rest', evs'') = drain_clients net rest evs'
      in ((serial, client') # rest', evs''))"

definition drain :: "transport \<Rightarrow> state \<Rightarrow> state" where
  "drain net st =
     (let (clients, evs) = drain_clients net (mqtt_clients st) (events st)
      in st\<lparr>mqtt_clients := clients, events := evs\<rparr>)"

text \<open>
  The state \<open>main\<close> is in when the termination signal is seen: after Bootstrapping on the
  first snapshot and one Steady cycle for each later poll. \<open>main\<close> itself: without a
  broker host, without a first snapshot (the exception of \<open>get_disks\<close> is not caught
  there) and with an empty first snapshot the process ends with status 1 and nothing
  published; otherwise with status 0, after Draining. The signal is seen in the sleep
  after a cycle, and only when the interval is positive (no sleep otherwise, and the
  loop never ends, which is the result \<open>None\<close>): \<open>poll\<close> and \<open>polls\<close> are the polls of
  the cycles run until then, one at least.
\<close>

definition steady_state ::
  "transport \<Rightarrow> string \<Rightarrow> int \<Rightarrow> py_error + raw_config \<Rightarrow> snapshot
   \<Rightarrow> (py_error + snapshot) list \<Rightarrow> state" where
  "steady_state net mqtt_topic update_interval loaded disks polls =
     foldl (steady_cycle net mqtt_topic)
       (bootstrap net mqtt_topic update_interval loaded disks) polls"

definition main ::
  "transport \<Rightarrow> string option \<Rightarrow> string \<Rightarrow> int \<Rightarrow> py_error + raw_config
   \<Rightarrow> py_error + snapshot \<Rightarrow> py_error + snapshot \<Rightarrow> (py_error + snapshot) list
   \<Rightarrow> (nat \<times> event list) option" where
  "main net mqtt_host mqtt_topic update_interval loaded first poll polls =
     (if \<not> truthy mqtt_host then Some (1, [])
      else case first of
             Inl e \<Rightarrow> Some (1, [])
           | Inr disks \<Rightarrow>
               if disks = [] then Some (1, [])
               else if update_interval \<le> 0 then None
               else Some (0, events (drain net
                         (steady_state net mqtt_topic update_interval loaded disks
                            (poll # polls)))))"

section \<open>Reading the log\<close>

text \<open>
  The calls made by the client of one disk, and the calls that publish a given
  availability status.
\<close>

definition sent_by :: "string \<Rightarrow> event list \<Rightarrow> publish_call list" where
  "sent_by serial evs = map ev_call (filter (\<lambda>e. ev_origin e = serial) evs)"

definition is_status :: "string \<Rightarrow> publish_call \<Rightarrow> bool" where
  "is_status status c =
     (case c of Single m \<Rightarrow> msg_payload m = Raw status | Multiple ms \<Rightarrow> False)"

definition status_count :: "string \<Rightarrow> string \<Rightarrow> event list \<Rightarrow> nat" where
  "status_count status serial evs = length (filter (is_status status) (sent_by serial evs))"




section \<open>Invariants of the publish loop\<close>

text \<open>
  \<open>pending\<close> is 1 while the client of a disk has not recorded the status online (or the
  disk has no client yet), and 0 afterwards.
\<close>

definition pending :: "string \<Rightarrow> state \<Rightarrow> nat" where
  "pending s st =
     (case map_of (mqtt_clients st) s of
        Some c \<Rightarrow> if published_status c = Some ''online'' then 0 else 1
      | None \<Rightarrow> 1)"

text \<open>
  After Bootstrapping no client has recorded a status, and every configured disk has a
  client. In Steady no client records the status offline.
\<close>

definition fresh_clients :: "state \<Rightarrow> bool" where
  "fresh_clients st =
     (list_all (\<lambda>(s, c). published_status c = None) (mqtt_clients st)
      \<and> fst ` set (configs st) \<subseteq> fst ` set (mqtt_clients st))"

definition drainable :: "state \<Rightarrow> bool" where
  "drainable st =
     (list_all (\<lambda>(s, c). published_status c \<noteq> Some ''offline'') (mqtt_clients st)
      \<and> fst ` set (configs st) \<subseteq> fst ` set (mqtt_clients st))"

text \<open>
  Two lists of keys and values are the same dictionary when both have every key once and
  they have the same entries, in whatever order. The descriptor of one template is the
  third component of what the loop body computes for it.
\<close>

definition same_dict :: "('k \<times> 'v) list \<Rightarrow> ('k \<times> 'v) list \<Rightarrow> bool" where
  "same_dict xs ys = (distinct (map fst xs) \<and> distinct (map fst ys) \<and> set xs = set ys)"

definition descriptor_of ::
  "int \<Rightarrow> Config \<Rightarrow> string \<Rightarrow> string \<times> options option \<Rightarrow> py_error + SensorConfig" where
  "descriptor_of update_interval self sensor_type entry =
     map_sum id (\<lambda>(query_key, vt, descriptor). descriptor)
       (expand_template update_interval self sensor_type entry)"

text \<open>
  Two configurations have the same identity when they agree on the fields set from the
  arguments of \<open>Config.__init__\<close>, the ones the loops do not change.
\<close>

definition same_identity :: "Config \<Rightarrow> Config \<Rightarrow> bool" where
  "same_identity a b =
     (serial_no a = serial_no b \<and> disk_alias a = disk_alias b \<and> model a = model b
      \<and> firmware a = firmware b \<and> mqtt_state_topic a = mqtt_state_topic b
      \<and> availability_topic a = availability_topic b)"


section \<open>Properties of the alias builder\<close>

lemmas text_defs = is_upper_def is_lower_def is_digit_def is_alnum_def is_space_def
  has_lowercase_def lower_char_def lower_def replace_char_def strip_char_def
  truthy_def or_else_def

lemmas alias_defs = to_snake_case_def to_safe_id_def serial_suffix_def build_disk_alias_def

lemma to_snake_case_example:
  "to_snake_case ''WDC WD10EZEX-00WN4A0'' = ''wdc_wd10_ezex_00_wn4_a0''"
  by (simp add: text_defs alias_defs)

lemma to_safe_id_example:
  "to_safe_id (Some ''Serial-With_Special!Chars@123'') = ''serial_with_special_chars_123''"
  by (simp add: text_defs alias_defs)

lemma build_disk_alias_examples:
  "build_disk_alias (Some ''SAMSUNG HD103UJ'') (Some ''S13PJ90S113060'')
     = ''samsung_hd103_uj_s13pj90s113060''"
  "build_disk_alias (Some ''SAMSUNG HD103UJ'') (Some ''S13PJ90S113054'')
     = ''samsung_hd103_uj_s13pj90s113054''"
  "build_disk_alias (Some '''') (Some ''S13PJ90S113060'') = ''unknown_s13pj90s113060''"
  by (simp_all add: text_defs alias_defs)

text \<open>
  The serial suffix is empty exactly for the serial numbers that are not empty and have
  no ASCII letter and no digit.
\<close>

lemma dropWhile_twice_empty:
  "(dropWhile P (rev (dropWhile P t)) = []) = (dropWhile P t = [])"
proof (cases "dropWhile P t")
  case Nil
  then show ?thesis by (simp only: rev.simps dropWhile.simps)
next
  case (Cons y ys)
  then have "\<not> P y"
    using hd_dropWhile [of P t] by simp
  then have "\<not> (\<forall>x \<in> set (rev (y # ys)). P x)" by auto
  then have "dropWhile P (rev (y # ys)) \<noteq> []"
    by (simp only: dropWhile_eq_Nil_conv not_False_eq_True)
  with Cons show ?thesis by simp
qed

lemma strip_char_empty: "(strip_char a t = []) = (\<forall>c \<in> set t. c = a)"
proof -
  have "(strip_char a t = []) = (dropWhile (\<lambda>c. c = a) (rev (dropWhile (\<lambda>c. c = a) t)) = [])"
    by (simp only: strip_char_def rev_is_Nil_conv)
  also have "\<dots> = (dropWhile (\<lambda>c. c = a) t = [])"
    by (rule dropWhile_twice_empty)
  also have "\<dots> = (\<forall>c \<in> set t. c = a)"
    by (rule dropWhile_eq_Nil_conv)
  finally show ?thesis .
qed

lemma underscore_not_alnum: "\<not> is_alnum CHR ''_''"
  by (simp add: is_alnum_def is_lower_def is_upper_def is_digit_def)

lemma sub_unsafe_runs_underscores:
  "(\<forall>c \<in> set (sub_unsafe_runs inside x). c = CHR ''_'') = (\<forall>c \<in> set x. \<not> is_alnum c)"
proof (induction x arbitrary: inside)
  case Nil
  show ?case by simp
next
  case (Cons c cs)
  show ?case
  proof (cases "is_alnum c")
    case True
    then have "c \<noteq> CHR ''_''"
      using underscore_not_alnum by auto
    with True show ?thesis by simp
  next
    case False
    then show ?thesis
      by (cases inside) (simp_all add: Cons.IH)
  qed
qed

lemma serial_suffix_empty_iff:
  "(serial_suffix s = []) = (\<exists>x. s = Some x \<and> x \<noteq> [] \<and> (\<forall>c \<in> set x. \<not> is_alnum c))"
proof (cases s)
  case None
  then show ?thesis by (simp add: serial_suffix_def truthy_def)
next
  case (Some x)
  show ?thesis
  proof (cases "x = []")
    case True
    with Some show ?thesis by (simp add: serial_suffix_def truthy_def)
  next
    case False
    with Some have "serial_suffix s = lower (strip_char CHR ''_'' (sub_unsafe_runs False x))"
      by (simp add: serial_suffix_def truthy_def to_safe_id_def or_else_def)
    with Some False show ?thesis
      by (simp add: lower_def strip_char_empty sub_unsafe_runs_underscores)
  qed
qed

text \<open>
  Claim C4. For a fixed model, two serial numbers whose normalised forms differ get
  different aliases: \<open>build_disk_alias\<close> is injective in the normalised serial number.
\<close>

theorem build_disk_alias_injective:
  assumes "serial_suffix s1 \<noteq> serial_suffix s2"
  shows "build_disk_alias model_id s1 \<noteq> build_disk_alias model_id s2"
  using assms by (simp add: build_disk_alias_def Let_def)

theorem build_disk_alias_injective_witness:
  "serial_suffix (Some ''S13PJ90S113060'') \<noteq> serial_suffix (Some ''S13PJ90S113054'')
   \<and> build_disk_alias (Some ''SAMSUNG HD103UJ'') (Some ''S13PJ90S113060'')
     \<noteq> build_disk_alias (Some ''SAMSUNG HD103UJ'') (Some ''S13PJ90S113054'')"
proof -
  have d: "serial_suffix (Some ''S13PJ90S113060'') \<noteq> serial_suffix (Some ''S13PJ90S113054'')"
    by (simp add: text_defs alias_defs)
  from build_disk_alias_injective [OF d, of "Some ''SAMSUNG HD103UJ''"] d show ?thesis
    by blast
qed

text \<open>
  Claim C7. The serial suffix of an alias is meant never to be empty: an empty or missing
  serial number gives \<open>unknown\<close>. The test is made on the raw serial number, before it is
  normalised, so a serial number without any letter or digit passes it and is normalised
  to the empty string: for the serial number \<open>---\<close> the alias ends in the separator.
\<close>

theorem serial_suffix_empty_at_dashes:
  "serial_suffix (Some ''---'') = [] \<and>
   build_disk_alias (Some ''Test Model'') (Some ''---'') = ''test_model_''"
  by (simp add: text_defs alias_defs)

section \<open>Properties of the value coercion\<close>

lemma digit_runs_in_run:
  "cur \<noteq> [] \<Longrightarrow>
   digit_runs cur v = (cur @ takeWhile is_digit v) # digit_runs [] (dropWhile is_digit v)"
  by (induction v arbitrary: cur) simp_all

lemma digit_runs_outside_run:
  "digit_runs [] v =
     (case dropWhile (\<lambda>c. \<not> is_digit c) v of
        [] \<Rightarrow> []
      | c # cs \<Rightarrow> takeWhile is_digit (c # cs) # digit_runs [] (dropWhile is_digit cs))"
proof (induction v)
  case Nil
  show ?case by simp
next
  case (Cons c cs)
  show ?case
  proof (cases "is_digit c")
    case True
    then show ?thesis by (simp add: digit_runs_in_run)
  next
    case False
    with Cons show ?thesis by simp
  qed
qed

lemma dropWhile_no_digit:
  "(dropWhile (\<lambda>c. \<not> is_digit c) v = []) = (\<forall>c \<in> set v. \<not> is_digit c)"
  by (induction v) simp_all

lemma findall_digits_first:
  "findall_digits v =
     (if \<exists>c \<in> set v. is_digit c
      then takeWhile is_digit (dropWhile (\<lambda>c. \<not> is_digit c) v)
           # findall_digits (dropWhile is_digit (dropWhile (\<lambda>c. \<not> is_digit c) v))
      else [])"
proof (cases "dropWhile (\<lambda>c. \<not> is_digit c) v")
  case Nil
  then have none: "\<not> (\<exists>c \<in> set v. is_digit c)"
    by (simp add: dropWhile_no_digit)
  have "digit_runs [] v = []"
    by (simp add: digit_runs_outside_run [of v] Nil)
  with none show ?thesis
    by (simp add: findall_digits_def)
next
  case (Cons c cs)
  then have some: "\<exists>c \<in> set v. is_digit c"
    using dropWhile_no_digit [of v] by auto
  from Cons have "is_digit c"
    using hd_dropWhile [of "\<lambda>c. \<not> is_digit c" v] by simp
  then have "digit_runs [] v = takeWhile is_digit (c # cs) # digit_runs [] (dropWhile is_digit (c # cs))"
    by (simp add: digit_runs_outside_run [of v] Cons)
  with some Cons show ?thesis
    by (simp add: findall_digits_def)
qed

text \<open>
  What \<open>to_number\<close> returns is never empty and has digits only.
\<close>

lemma to_number_first_run:
  "to_number v =
     Inr (if \<exists>c \<in> set v. is_digit c
          then takeWhile is_digit (dropWhile (\<lambda>c. \<not> is_digit c) v)
          else ''0'')"
  using findall_digits_first [of v]
  by (auto simp add: to_number_def item0_def Let_def)

lemma first_run_digits:
  assumes "\<exists>c \<in> set v. is_digit c"
  shows "takeWhile is_digit (dropWhile (\<lambda>c. \<not> is_digit c) v) \<noteq> []"
proof -
  from assms have ne: "dropWhile (\<lambda>c. \<not> is_digit c) v \<noteq> []"
    by (simp add: dropWhile_no_digit)
  then obtain c cs where c: "dropWhile (\<lambda>c. \<not> is_digit c) v = c # cs"
    by (cases "dropWhile (\<lambda>c. \<not> is_digit c) v") auto
  then have "is_digit c"
    using hd_dropWhile [of "\<lambda>c. \<not> is_digit c" v] by simp
  then show ?thesis
    by (simp only: c takeWhile.simps if_True) simp
qed

lemma to_number_digits:
  "\<exists>r. to_number v = Inr r \<and> r \<noteq> [] \<and> list_all is_digit r"
proof (cases "\<exists>c \<in> set v. is_digit c")
  case True
  have "list_all is_digit (takeWhile is_digit (dropWhile (\<lambda>c. \<not> is_digit c) v))"
    by (auto simp add: list_all_iff dest: set_takeWhileD)
  with True first_run_digits [OF True] show ?thesis
    by (simp only: to_number_first_run if_True) blast
next
  case False
  have "list_all is_digit ''0''"
    by (simp add: is_digit_def)
  with False show ?thesis
    by (simp only: to_number_first_run if_False) blast
qed

lemma to_number_legacy_raises:
  "to_number_legacy ''N/A'' = Inl IndexError"
  by (simp add: to_number_legacy_def findall_digits_def item0_def is_digit_def)




section \<open>Properties of the sensor template expander\<close>

lemma distinct_map_sort_key:
  "distinct (map f (sort_key f xs)) = distinct (map f xs)"
  by (induction xs) (simp_all add: distinct_insort_key)

lemma sort_key_same_dict:
  assumes "same_dict xs ys"
  shows "sort_key fst xs = sort_key fst ys"
proof (rule map_sorted_distinct_set_unique [where f = fst])
  from assms have "inj_on fst (set xs)" and "set xs = set ys"
    by (simp_all add: same_dict_def distinct_map)
  then show "inj_on fst (set (sort_key fst xs) \<union> set (sort_key fst ys))"
    by simp
  show "sorted (map fst (sort_key fst xs))" "sorted (map fst (sort_key fst ys))"
    by simp_all
  from assms show "distinct (map fst (sort_key fst xs))" "distinct (map fst (sort_key fst ys))"
    by (simp_all add: same_dict_def distinct_map_sort_key)
  from assms show "set (sort_key fst xs) = set (sort_key fst ys)"
    by (simp add: same_dict_def)
qed

lemma for_each_cong:
  "(\<And>x s. x \<in> set xs \<Longrightarrow> f x s = g x s) \<Longrightarrow> for_each f xs s = for_each g xs s"
  by (induction xs arbitrary: s) (simp_all split: sum.split)

lemma add_sensor_type_same_dict:
  "same_dict (templates_of raw k) (templates_of raw' k) \<Longrightarrow>
   add_sensor_type ui raw' k self = add_sensor_type ui raw k self"
  by (simp add: add_sensor_type_def sort_key_same_dict)

lemma same_identity_refl: "same_identity a a"
  by (simp add: same_identity_def)

lemma same_identity_trans: "same_identity a b \<Longrightarrow> same_identity b c \<Longrightarrow> same_identity a c"
  by (simp add: same_identity_def)

lemma get_device_descriptor_same_identity:
  "same_identity a b \<Longrightarrow> get_device_descriptor ui b = get_device_descriptor ui a"
  by (intro ext) (simp add: same_identity_def get_device_descriptor_def)

lemma descriptor_of_same_identity:
  assumes "same_identity a b"
  shows "descriptor_of ui b k e = descriptor_of ui a k e"
proof -
  have "expand_template ui b k e = expand_template ui a k e"
    unfolding expand_template_def
    by (simp only: get_device_descriptor_same_identity [OF assms])
  then show ?thesis
    by (simp add: descriptor_of_def)
qed

lemma add_sensor_step:
  assumes "add_sensor ui k e self = Inr self'"
  shows "same_identity self self'"
    and "descriptor_of ui self k e = Inr (last (sensors self'))"
    and "sensors self' = sensors self @ [last (sensors self')]"
  using assms
  by (auto simp add: add_sensor_def descriptor_of_def same_identity_def split: sum.splits)

lemma for_each_add_sensor:
  assumes "for_each (add_sensor ui k) es self = Inr self'"
  shows "same_identity self self'
       \<and> map Inr (sensors self') = map Inr (sensors self) @ map (descriptor_of ui self k) es"
  using assms
proof (induction es arbitrary: self)
  case Nil
  then show ?case by (simp add: same_identity_refl)
next
  case (Cons e es)
  then obtain s1 where s1: "add_sensor ui k e self = Inr s1"
    and rest: "for_each (add_sensor ui k) es s1 = Inr self'"
    by (auto split: sum.splits)
  from Cons.IH [OF rest] have id1: "same_identity s1 self'"
    and ss: "map Inr (sensors self') = map Inr (sensors s1) @ map (descriptor_of ui s1 k) es"
    by simp_all
  from add_sensor_step [OF s1] have id0: "same_identity self s1"
    and d: "descriptor_of ui self k e = Inr (last (sensors s1))"
    and s: "sensors s1 = sensors self @ [last (sensors s1)]"
    by simp_all
  have "map (descriptor_of ui s1 k) es = map (descriptor_of ui self k) es"
    using descriptor_of_same_identity [OF id0] by simp
  moreover have "map Inr (sensors s1) = map Inr (sensors self) @ [descriptor_of ui self k e]"
    by (subst s) (simp add: d)
  ultimately have "map Inr (sensors self') =
      map Inr (sensors self) @ map (descriptor_of ui self k) (e # es)"
    using ss by simp
  with same_identity_trans [OF id0 id1] show ?case by simp
qed

text \<open>
  Claim C8. The expansion is a function of the poll interval, the loaded templates and the
  disk identity, and of nothing else. It does not depend on the order in which the
  dictionaries of the document list their templates: two documents with the same
  templates for every sensor type give the same result, the same descriptors in the same
  order or the same exception. The descriptors are those of the binary sensors followed
  by those of the sensors, each group in the order of the template names.
\<close>

theorem expansion_deterministic:
  assumes "list_all (\<lambda>k. same_dict (templates_of raw k) (templates_of raw' k)) SENSOR_TYPES"
  shows "Config_init ui (Inr raw') serial al m f st av = Config_init ui (Inr raw) serial al m f st av
     \<and> (case Config_init ui (Inr raw) serial al m f st av of
          Inl e \<Rightarrow> True
        | Inr cfg \<Rightarrow>
            map Inr (sensors cfg) =
              concat (map (\<lambda>k. map (descriptor_of ui (new_config serial al m f st av) k)
                                   (sort_key fst (templates_of raw k))) SENSOR_TYPES))
     \<and> list_all (\<lambda>k. sorted (map fst (sort_key fst (templates_of raw k)))) SENSOR_TYPES"
proof -
  let ?new = "new_config serial al m f st av"
  have eq: "for_each (add_sensor_type ui raw') SENSOR_TYPES ?new
      = for_each (add_sensor_type ui raw) SENSOR_TYPES ?new"
  proof (rule for_each_cong)
    fix k s assume "k \<in> set SENSOR_TYPES"
    with assms have "same_dict (templates_of raw k) (templates_of raw' k)"
      by (simp add: list_all_iff)
    then show "add_sensor_type ui raw' k s = add_sensor_type ui raw k s"
      by (rule add_sensor_type_same_dict)
  qed
  have order: "map Inr (sensors cfg) =
      concat (map (\<lambda>k. map (descriptor_of ui ?new k) (sort_key fst (templates_of raw k)))
        SENSOR_TYPES)"
    if ok: "for_each (add_sensor_type ui raw) SENSOR_TYPES ?new = Inr cfg" for cfg
  proof -
    from ok obtain s1 where s1: "add_sensor_type ui raw ''binary_sensor'' ?new = Inr s1"
      and s2: "add_sensor_type ui raw ''sensor'' s1 = Inr cfg"
      by (auto simp add: SENSOR_TYPES_def split: sum.splits)
    from for_each_add_sensor [OF s1 [unfolded add_sensor_type_def]]
    have id1: "same_identity ?new s1"
      and ss1: "map Inr (sensors s1) =
        map (descriptor_of ui ?new ''binary_sensor'') (sort_key fst (templates_of raw ''binary_sensor''))"
      by (simp_all add: new_config_def)
    from for_each_add_sensor [OF s2 [unfolded add_sensor_type_def]]
    have "map Inr (sensors cfg) = map Inr (sensors s1)
        @ map (descriptor_of ui s1 ''sensor'') (sort_key fst (templates_of raw ''sensor''))"
      by simp
    moreover have "map (descriptor_of ui s1 ''sensor'') (sort_key fst (templates_of raw ''sensor''))
        = map (descriptor_of ui ?new ''sensor'') (sort_key fst (templates_of raw ''sensor''))"
      using descriptor_of_same_identity [OF id1] by simp
    ultimately show ?thesis
      using ss1 by (simp add: SENSOR_TYPES_def)
  qed
  from eq order show ?thesis
    by (auto simp add: Config_init_def list_all_iff split: sum.split)
qed

theorem expansion_deterministic_witness:
  "map (map_sum id topic)
     (concat (map (\<lambda>k. map (descriptor_of 600
           (new_config ''S1'' ''wd_s1'' (JStr ''WD'') (JStr ''1A01'')
              ''hdsentinel/wd_s1/hdsentinel'' ''hdsentinel/wd_s1/availability'') k)
         (sort_key fst (templates_of
            [(''sensor'', [(''temperature'', Some [(''_type'', ''int'')]), (''health'', None)])] k)))
        SENSOR_TYPES))
     = [Inr ''homeassistant/sensor/hdsentinel_wd_s1/health/config'',
        Inr ''homeassistant/sensor/hdsentinel_wd_s1/temperature/config'']
   \<and> Config_init 600
        (Inr [(''sensor'', [(''health'', None), (''temperature'', Some [(''_type'', ''int'')])])])
        ''S1'' ''wd_s1'' (JStr ''WD'') (JStr ''1A01'')
        ''hdsentinel/wd_s1/hdsentinel'' ''hdsentinel/wd_s1/availability''
     = Config_init 600
        (Inr [(''sensor'', [(''temperature'', Some [(''_type'', ''int'')]), (''health'', None)])])
        ''S1'' ''wd_s1'' (JStr ''WD'') (JStr ''1A01'')
        ''hdsentinel/wd_s1/hdsentinel'' ''hdsentinel/wd_s1/availability''"
proof -
  have same: "list_all (\<lambda>k. same_dict
       (templates_of [(''sensor'', [(''temperature'', Some [(''_type'', ''int'')]), (''health'', None)])] k)
       (templates_of [(''sensor'', [(''health'', None), (''temperature'', Some [(''_type'', ''int'')])])] k))
     SENSOR_TYPES"
    by (auto simp add: SENSOR_TYPES_def same_dict_def templates_of_def)
  have "map (map_sum id topic)
     (concat (map (\<lambda>k. map (descriptor_of 600
           (new_config ''S1'' ''wd_s1'' (JStr ''WD'') (JStr ''1A01'')
              ''hdsentinel/wd_s1/hdsentinel'' ''hdsentinel/wd_s1/availability'') k)
         (sort_key fst (templates_of
            [(''sensor'', [(''temperature'', Some [(''_type'', ''int'')]), (''health'', None)])] k)))
        SENSOR_TYPES))
     = [Inr ''homeassistant/sensor/hdsentinel_wd_s1/health/config'',
        Inr ''homeassistant/sensor/hdsentinel_wd_s1/temperature/config'']"
    by (simp add: SENSOR_TYPES_def templates_of_def descriptor_of_def expand_template_def
        pop_internal_config_def startswith_underscore_def lstrip_underscore_def
        VALUE_TYPES_def DEFAULT_TYPE_NAME_def get_device_descriptor_def new_config_def
        text_defs Let_def)
  with expansion_deterministic [OF same, of 600 "''S1''" "''wd_s1''" "JStr ''WD''" "JStr ''1A01''"
      "''hdsentinel/wd_s1/hdsentinel''" "''hdsentinel/wd_s1/availability''"]
  show ?thesis by simp
qed

section \<open>Properties of the snapshot source\<close>

lemma list_all_update:
  "P (k, v) \<Longrightarrow> list_all P al \<Longrightarrow> list_all P (AList.update k v al)"
  by (induction al) auto







section \<open>Properties of the clients\<close>

lemma publish_status_same:
  "published_status c = Some status \<Longrightarrow> publish_status net origin status (c, evs) = (c, evs)"
  by (simp add: publish_status_def)

lemma publish_status_new:
  "published_status c \<noteq> Some status \<Longrightarrow>
   publish_status net origin status (c, evs) =
     (c\<lparr>published_status := Some status\<rparr>,
      evs @ [\<lparr>ev_origin = origin, ev_call = Single (status_message c status),
              ev_delivered = net (length evs)\<rparr>])"
  by (auto simp add: publish_status_def publish_single_def Let_def)

lemma main_loop_eq:
  "main_loop net origin c t cfg vals evs =
     (c\<lparr>published_status := Some ''online''\<rparr>,
      evs @ \<lparr>ev_origin = origin, ev_call = Single (state_message t vals),
               ev_delivered = net (length evs)\<rparr>
          # (if published_status c = Some ''online'' then []
             else [\<lparr>ev_origin = origin, ev_call = Single (status_message c ''online''),
                     ev_delivered = net (Suc (length evs))\<rparr>]))"
proof (cases "published_status c = Some ''online''")
  case True
  then have "c\<lparr>published_status := Some ''online''\<rparr> = c"
    by (cases c) simp
  then show ?thesis
    using True
    by (simp add: main_loop_def publish_online_status_def publish_status_same publish_single_def)
next
  case False
  then show ?thesis
    by (simp add: main_loop_def publish_online_status_def publish_status_new publish_single_def)
qed

lemma is_status_state_message [simp]: "\<not> is_status status (Single (state_message t vals))"
  by (simp add: is_status_def state_message_def)

lemma is_status_status_message [simp]:
  "is_status status (Single (status_message c status')) = (status' = status)"
  by (simp add: is_status_def status_message_def)

lemma sent_by_append [simp]: "sent_by s (xs @ ys) = sent_by s xs @ sent_by s ys"
  by (simp add: sent_by_def)

lemma sent_by_Nil [simp]: "sent_by s [] = []"
  by (simp add: sent_by_def)

lemma sent_by_Cons [simp]:
  "sent_by s (e # es) = (if ev_origin e = s then ev_call e # sent_by s es else sent_by s es)"
  by (simp add: sent_by_def)

text \<open>
  Claim C9. After \<open>publish_online_status\<close> and \<open>publish_offline_status\<close> the client has
  recorded the requested status, whatever the transport did with the message (\<open>net\<close> is
  arbitrary): \<open>publish_single\<close> returns in every case. A later \<open>main_loop\<close> on a client that
  was asked to publish online publishes the state message only: the online message is not
  sent again, also when its delivery had failed.
\<close>

theorem status_recorded_whatever_the_transport:
  "published_status (fst (publish_online_status net origin (c, evs))) = Some ''online''
   \<and> published_status (fst (publish_offline_status net origin (c, evs))) = Some ''offline''
   \<and> main_loop net' origin (fst (publish_online_status net origin (c, evs))) t cfg vals evs' =
       (fst (publish_online_status net origin (c, evs)),
        publish_single net' origin (state_message t vals) evs')"
  by (simp add: publish_online_status_def publish_offline_status_def publish_status_def
      main_loop_def Let_def)

theorem status_recorded_whatever_the_transport_witness:
  "publish_online_status (\<lambda>n. False) ''S1''
     (HaCapableMqttClient_init ''hdsentinel/wd_s1'', []) =
     (\<lparr>base_topic = ''hdsentinel/wd_s1'', status_topic = ''hdsentinel/wd_s1/availability'',
       published_status = Some ''online''\<rparr>,
      [\<lparr>ev_origin = ''S1'',
        ev_call = Single \<lparr>msg_topic = ''hdsentinel/wd_s1/availability'',
                          msg_payload = Raw ''online'', msg_retain = True\<rparr>,
        ev_delivered = False\<rparr>])
   \<and> published_status (fst (publish_online_status (\<lambda>n. False) ''S1''
         (HaCapableMqttClient_init ''hdsentinel/wd_s1'', []))) = Some ''online''"
  using status_recorded_whatever_the_transport
    [of "\<lambda>n. False" "''S1''" "HaCapableMqttClient_init ''hdsentinel/wd_s1''" "[]"]
  by (simp add: publish_online_status_def publish_status_def publish_single_def
      status_message_def HaCapableMqttClient_init_def Let_def)

section \<open>Properties of the Steady cycle\<close>

lemmas loop_defs = bootstrap_def register_disk_def str_arg_def dict_get_def
  HaCapableMqttClient_init_def get_abs_topic_def Config_init_def SENSOR_TYPES_def
  add_sensor_type_def templates_of_def add_sensor_def expand_template_def new_config_def
  pop_internal_config_def
  startswith_underscore_def lstrip_underscore_def VALUE_TYPES_def DEFAULT_TYPE_NAME_def
  get_device_descriptor_def publish_multiple_def to_json_def
  steady_cycle_def process_disk_def client_for_def main_loop_def state_message_def
  status_of_def publish_online_status_def publish_offline_status_def publish_status_def
  status_message_def publish_single_def sent_by_def is_status_def status_count_def
  drain_def

lemmas loop_defs2 = loop_defs steady_state_def

lemma process_disk_unknown:
  "map_of (configs st) (fst d) = None \<Longrightarrow> process_disk net t st d = st"
  by (simp add: process_disk_def Let_def)

lemma process_disk_known:
  assumes "map_of (configs st) (fst d) = Some cfg"
  shows "process_disk net t st d =
     st\<lparr>mqtt_clients := AList.update (fst d)
            ((client_for t st (fst d) cfg)\<lparr>published_status := Some ''online''\<rparr>) (mqtt_clients st),
        events := events st
          @ \<lparr>ev_origin = fst d,
              ev_call = Single (state_message (get_abs_topic (client_for t st (fst d) cfg) [''hdsentinel'']) (snd d)),
              ev_delivered = net (length (events st))\<rparr>
          # (if published_status (client_for t st (fst d) cfg) = Some ''online'' then []
             else [\<lparr>ev_origin = fst d,
                    ev_call = Single (status_message (client_for t st (fst d) cfg) ''online''),
                    ev_delivered = net (Suc (length (events st)))\<rparr>])\<rparr>"
  using assms by (simp add: process_disk_def Let_def main_loop_eq)


lemma process_disk_configs [simp]: "configs (process_disk net t st d) = configs st"
  by (cases "map_of (configs st) (fst d)") (simp_all add: process_disk_unknown process_disk_known)

lemma process_disk_other:
  assumes "fst d \<noteq> s"
  shows "sent_by s (events (process_disk net t st d)) = sent_by s (events st)"
    and "map_of (mqtt_clients (process_disk net t st d)) s = map_of (mqtt_clients st) s"
  using assms
  by (cases "map_of (configs st) (fst d)";
      simp add: process_disk_unknown process_disk_known update_conv')+

lemma process_disk_extends:
  "\<exists>new. events (process_disk net t st d) = events st @ new"
  by (cases "map_of (configs st) (fst d)") (simp_all add: process_disk_unknown process_disk_known)

lemma foldl_process_disk_configs [simp]:
  "configs (foldl (process_disk net t) st ds) = configs st"
  by (induction ds arbitrary: st) simp_all

lemma foldl_process_disk_extends:
  "\<exists>new. events (foldl (process_disk net t) st ds) = events st @ new"
proof (induction ds arbitrary: st)
  case Nil
  show ?case by simp
next
  case (Cons d ds)
  obtain n1 where n1: "events (process_disk net t st d) = events st @ n1"
    using process_disk_extends by blast
  obtain n2 where "events (foldl (process_disk net t) (process_disk net t st d) ds)
      = events (process_disk net t st d) @ n2"
    using Cons.IH by blast
  with n1 show ?case by simp
qed

lemma foldl_process_disk_others:
  assumes "s \<notin> fst ` set ds"
  shows "sent_by s (events (foldl (process_disk net t) st ds)) = sent_by s (events st)
       \<and> map_of (mqtt_clients (foldl (process_disk net t) st ds)) s = map_of (mqtt_clients st) s"
  using assms
proof (induction ds arbitrary: st)
  case Nil
  show ?case by simp
next
  case (Cons d ds)
  then have "fst d \<noteq> s" and "s \<notin> fst ` set ds" by auto
  with Cons.IH [of "process_disk net t st d"] show ?case
    by (simp add: process_disk_other)
qed

lemma steady_cycle_extends:
  "\<exists>new. events (steady_cycle net t st polled) = events st @ new"
  by (cases polled) (simp_all add: steady_cycle_def foldl_process_disk_extends)

lemma steady_cycle_configs [simp]: "configs (steady_cycle net t st polled) = configs st"
  by (cases polled) (simp_all add: steady_cycle_def)

lemma client_for_cong:
  "map_of (mqtt_clients st') s = map_of (mqtt_clients st) s \<Longrightarrow>
   client_for t st' s cfg = client_for t st s cfg"
  by (simp add: client_for_def)









lemma status_count_append [simp]:
  "status_count status s (xs @ ys) = status_count status s xs + status_count status s ys"
  by (simp add: status_count_def)

lemma process_disk_balance:
  "status_count ''online'' s (events (process_disk net t st d)) + pending s (process_disk net t st d)
     = status_count ''online'' s (events st) + pending s st"
proof (cases "fst d = s")
  case False
  then show ?thesis
    by (simp add: status_count_def pending_def process_disk_other)
next
  case True
  show ?thesis
  proof (cases "map_of (configs st) (fst d)")
    case None
    then show ?thesis by (simp add: process_disk_unknown)
  next
    case (Some cfg)
    show ?thesis
      using True
      by (cases "map_of (mqtt_clients st) s")
         (simp_all add: process_disk_known [OF Some] pending_def update_conv' status_count_def
            client_for_def HaCapableMqttClient_init_def)
  qed
qed

lemma steady_cycle_balance:
  "status_count ''online'' s (events (steady_cycle net t st polled)) + pending s (steady_cycle net t st polled)
     = status_count ''online'' s (events st) + pending s st"
proof (cases polled)
  case (Inl e)
  then show ?thesis by (simp add: steady_cycle_def)
next
  case (Inr disks)
  have "status_count ''online'' s (events (foldl (process_disk net t) st disks))
          + pending s (foldl (process_disk net t) st disks)
        = status_count ''online'' s (events st) + pending s st"
  proof (induction disks arbitrary: st)
    case Nil
    show ?case by simp
  next
    case (Cons d ds)
    show ?case
      using Cons.IH [of "process_disk net t st d"] process_disk_balance [of s net t st d]
      by simp
  qed
  with Inr show ?thesis by (simp add: steady_cycle_def)
qed

lemma pending_le_1: "pending s st \<le> 1"
  by (simp add: pending_def split: option.split)

lemma foldl_process_disk_present:
  assumes "map_of (configs st) s = Some cfg" and "map_of ds s = Some vals"
    and "distinct (map fst ds)"
  shows "sent_by s (events (foldl (process_disk net t) st ds)) =
     sent_by s (events st)
       @ Single (state_message (get_abs_topic (client_for t st s cfg) [''hdsentinel'']) vals)
       # (if published_status (client_for t st s cfg) = Some ''online'' then []
          else [Single (status_message (client_for t st s cfg) ''online'')])"
  using assms
proof (induction ds arbitrary: st)
  case Nil
  then show ?case by simp
next
  case (Cons d ds)
  show ?case
  proof (cases "fst d = s")
    case True
    from True Cons.prems(2) have vals: "snd d = vals"
      by (cases d) simp
    from True Cons.prems(3) have rest: "s \<notin> fst ` set ds"
      by simp
    from True Cons.prems(1) have cfg: "map_of (configs st) (fst d) = Some cfg" by simp
    have "sent_by s (events (foldl (process_disk net t) (process_disk net t st d) ds))
        = sent_by s (events (process_disk net t st d))"
      using foldl_process_disk_others [OF rest] by simp
    with True vals show ?thesis
      by (simp add: process_disk_known [OF cfg])
  next
    case False
    from False Cons.prems(2) have m: "map_of ds s = Some vals"
      by (cases d) simp
    from Cons.prems(3) have di: "distinct (map fst ds)"
      by simp
    have c: "map_of (configs (process_disk net t st d)) s = Some cfg"
      using Cons.prems(1) by simp
    have "sent_by s (events (foldl (process_disk net t) (process_disk net t st d) ds)) =
       sent_by s (events (process_disk net t st d))
       @ Single (state_message (get_abs_topic (client_for t (process_disk net t st d) s cfg) [''hdsentinel'']) vals)
       # (if published_status (client_for t (process_disk net t st d) s cfg) = Some ''online'' then []
          else [Single (status_message (client_for t (process_disk net t st d) s cfg) ''online'')])"
      by (rule Cons.IH [OF c m di])
    moreover have "client_for t (process_disk net t st d) s cfg = client_for t st s cfg"
      by (rule client_for_cong) (simp add: process_disk_other False)
    ultimately show ?thesis
      using False by (simp add: process_disk_other)
  qed
qed

lemma map_of_foldl_update:
  "map_of (foldl (\<lambda>d (k, v). AList.update (f k) v d) acc xs)
     = map_of acc ++ map_of (rev (map (\<lambda>(k, v). (f k, v)) xs))"
proof (induction xs arbitrary: acc)
  case Nil
  show ?case by simp
next
  case (Cons x xs)
  obtain k v where x: "x = (k, v)" by (cases x)
  have upd: "map_of (AList.update (f k) v acc) = map_of acc ++ map_of [(f k, v)]"
    by (rule ext) (simp add: update_conv' map_add_def)
  have "map_of (foldl (\<lambda>d (k, v). AList.update (f k) v d) acc (x # xs))
      = map_of (AList.update (f k) v acc) ++ map_of (rev (map (\<lambda>(k, v). (f k, v)) xs))"
    using Cons.IH [of "AList.update (f k) v acc"] by (simp add: x)
  also have "\<dots> = map_of acc ++ (map_of [(f k, v)] ++ map_of (rev (map (\<lambda>(k, v). (f k, v)) xs)))"
    by (simp only: upd map_add_assoc)
  also have "map_of [(f k, v)] ++ map_of (rev (map (\<lambda>(k, v). (f k, v)) xs))
      = map_of (rev (map (\<lambda>(k, v). (f k, v)) (x # xs)))"
    by (simp only: x list.map prod.case rev.simps map_of_append)
  finally show ?case .
qed

lemma map_of_status_of:
  "map_of (status_of vals) = map_of (rev (map (\<lambda>(k, v). (lower k, v)) vals))"
  by (simp add: status_of_def map_of_foldl_update)

lemma steady_cycle_present_count:
  assumes "map_of (configs st) s = Some cfg" and "map_of d1 s = Some v1"
    and "distinct (map fst d1)"
  shows "status_count ''online'' s (events (steady_cycle net t st (Inr d1)))
     = status_count ''online'' s (events st)
       + (if published_status (client_for t st s cfg) = Some ''online'' then 0 else 1)"
  using foldl_process_disk_present [OF assms, of net t]
  by (simp add: steady_cycle_def status_count_def)

text \<open>
  Claim C3. Over two consecutive Steady cycles, whatever the snapshots, the client of a disk
  publishes the online message at most once; it publishes none when it has already
  recorded the status online; and in a cycle whose snapshot has the disk, a configured disk
  gets the message exactly when its client has not recorded online yet.
\<close>

theorem online_published_at_most_once:
  "status_count ''online'' s (events (steady_cycle net t (steady_cycle net t st p1) p2))
     \<le> status_count ''online'' s (events st) + 1
   \<and> ((\<exists>c. map_of (mqtt_clients st) s = Some c \<and> published_status c = Some ''online'') \<longrightarrow>
        status_count ''online'' s (events (steady_cycle net t (steady_cycle net t st p1) p2))
          = status_count ''online'' s (events st))
   \<and> (map_of (configs st) s = Some cfg \<and> map_of d1 s = Some v1 \<and> distinct (map fst d1) \<longrightarrow>
        status_count ''online'' s (events (steady_cycle net t st (Inr d1)))
          = status_count ''online'' s (events st)
            + (if published_status (client_for t st s cfg) = Some ''online'' then 0 else 1))"
proof -
  let ?st1 = "steady_cycle net t st p1"
  let ?st2 = "steady_cycle net t ?st1 p2"
  have bal: "status_count ''online'' s (events ?st2) + pending s ?st2
      = status_count ''online'' s (events st) + pending s st"
    using steady_cycle_balance [of s net t ?st1 p2] steady_cycle_balance [of s net t st p1]
    by simp
  obtain n1 where n1: "events ?st1 = events st @ n1"
    using steady_cycle_extends by blast
  obtain n2 where n2: "events ?st2 = events ?st1 @ n2"
    using steady_cycle_extends by blast
  from n1 n2 have mono: "status_count ''online'' s (events st) \<le> status_count ''online'' s (events ?st2)"
    by simp
  have a: "status_count ''online'' s (events ?st2) \<le> status_count ''online'' s (events st) + 1"
    using bal pending_le_1 [of s st] by linarith
  have b: "status_count ''online'' s (events ?st2) = status_count ''online'' s (events st)"
    if "\<exists>c. map_of (mqtt_clients st) s = Some c \<and> published_status c = Some ''online''"
  proof -
    from that have "pending s st = 0" by (auto simp add: pending_def)
    with bal mono show ?thesis by linarith
  qed
  from a b steady_cycle_present_count [of st s cfg d1 v1 net t] show ?thesis
    by blast
qed

theorem online_published_at_most_once_witness:
  "(let st = bootstrap (\<lambda>n. True) ''hdsentinel'' 600
               (Inr [(''sensor'', [(''temperature'', Some [(''_type'', ''int'')])])])
               [(''S1'', [(''Hard_Disk_Model_ID'', XText ''WD''), (''Temperature'', XText ''38 C'')])];
        poll = Inr [(''S1'', [(''Hard_Disk_Model_ID'', XText ''WD''), (''Temperature'', XText ''39 C'')])]
    in status_count ''online'' ''S1'' (events st) = 0
     \<and> status_count ''online'' ''S1'' (events (steady_cycle (\<lambda>n. True) ''hdsentinel'' st poll)) = 1
     \<and> status_count ''online'' ''S1'' (events
          (steady_cycle (\<lambda>n. True) ''hdsentinel''
             (steady_cycle (\<lambda>n. True) ''hdsentinel'' st poll) poll)) = 1)"
  using online_published_at_most_once [of "''S1''" "\<lambda>n. True" "''hdsentinel''"
      "bootstrap (\<lambda>n. True) ''hdsentinel'' 600
               (Inr [(''sensor'', [(''temperature'', Some [(''_type'', ''int'')])])])
               [(''S1'', [(''Hard_Disk_Model_ID'', XText ''WD''), (''Temperature'', XText ''38 C'')])]"]
  by (simp add: loop_defs text_defs alias_defs Let_def)

text \<open>
  What a Steady cycle of \<open>hdsentinel_parser.py\<close> publishes for a configured disk that is
  in the fresh snapshot: one state message, without the retain flag, to the state topic of
  the disk, and then the online status unless the client has recorded it. The payload is
  the JSON object of the dictionary \<open>status\<close>, which maps every attribute name, in small
  letters, to the raw value of the attribute (of the last attribute of that name).
\<close>

lemma steady_cycle_publishes_raw_values:
  assumes "map_of (configs st) s = Some cfg" and "map_of disks s = Some vals"
    and "distinct (map fst disks)"
  shows "sent_by s (drop (length (events st)) (events (steady_cycle net t st (Inr disks)))) =
       Single \<lparr>msg_topic = get_abs_topic (client_for t st s cfg) [''hdsentinel''],
               msg_payload = Json (JObj (map (\<lambda>(k, v). (k, to_json v)) (status_of vals))),
               msg_retain = False\<rparr>
       # (if published_status (client_for t st s cfg) = Some ''online'' then []
          else [Single (status_message (client_for t st s cfg) ''online'')])
     \<and> map_of (status_of vals) = map_of (rev (map (\<lambda>(k, v). (lower k, v)) vals))"
proof -
  let ?st' = "steady_cycle net t st (Inr disks)"
  obtain new where new: "events ?st' = events st @ new"
    using steady_cycle_extends by blast
  have "sent_by s (events ?st') = sent_by s (events st)
       @ Single (state_message (get_abs_topic (client_for t st s cfg) [''hdsentinel'']) vals)
       # (if published_status (client_for t st s cfg) = Some ''online'' then []
          else [Single (status_message (client_for t st s cfg) ''online'')])"
    using foldl_process_disk_present [OF assms] by (simp add: steady_cycle_def)
  with new have "sent_by s new =
       Single (state_message (get_abs_topic (client_for t st s cfg) [''hdsentinel'']) vals)
       # (if published_status (client_for t st s cfg) = Some ''online'' then []
          else [Single (status_message (client_for t st s cfg) ''online'')])"
    by simp
  with new show ?thesis
    by (simp add: map_of_status_of state_message_def)
qed

lemma steady_cycle_publishes_raw_values_example:
  "(let st = \<lparr>configs = [(''S1'', \<lparr>serial_no = ''S1'', disk_alias = ''wd_s1'', model = JStr ''WD'',
                 firmware = JStr ''Unknown'', mqtt_state_topic = ''hdsentinel/wd_s1/hdsentinel'',
                 availability_topic = ''hdsentinel/wd_s1/availability'',
                 value_types = [(''temperature'', TInt)], sensors = []\<rparr>)],
               mqtt_clients = [(''S1'', HaCapableMqttClient_init ''hdsentinel/wd_s1'')],
               events = []\<rparr>
    in sent_by ''S1'' (drop (length (events st)) (events
          (steady_cycle (\<lambda>n. True) ''hdsentinel'' st
             (Inr [(''S1'', [(''Temperature'', XText ''38 C''), (''Health'', XText ''100 %'')])])))) =
         [Single \<lparr>msg_topic = ''hdsentinel/wd_s1/hdsentinel'',
                  msg_payload = Json (JObj [(''temperature'', JStr ''38 C''),
                                             (''health'', JStr ''100 %'')]),
                  msg_retain = False\<rparr>,
          Single \<lparr>msg_topic = ''hdsentinel/wd_s1/availability'',
                  msg_payload = Raw ''online'', msg_retain = True\<rparr>])"
  using steady_cycle_publishes_raw_values [of
      "\<lparr>configs = [(''S1'', \<lparr>serial_no = ''S1'', disk_alias = ''wd_s1'', model = JStr ''WD'',
                 firmware = JStr ''Unknown'', mqtt_state_topic = ''hdsentinel/wd_s1/hdsentinel'',
                 availability_topic = ''hdsentinel/wd_s1/availability'',
                 value_types = [(''temperature'', TInt)], sensors = []\<rparr>)],
               mqtt_clients = [(''S1'', HaCapableMqttClient_init ''hdsentinel/wd_s1'')],
               events = []\<rparr>" "''S1''"
      "\<lparr>serial_no = ''S1'', disk_alias = ''wd_s1'', model = JStr ''WD'',
                 firmware = JStr ''Unknown'', mqtt_state_topic = ''hdsentinel/wd_s1/hdsentinel'',
                 availability_topic = ''hdsentinel/wd_s1/availability'',
                 value_types = [(''temperature'', TInt)], sensors = []\<rparr>"
      "[(''S1'', [(''Temperature'', XText ''38 C''), (''Health'', XText ''100 %'')])]"
      "[(''Temperature'', XText ''38 C''), (''Health'', XText ''100 %'')]"
      "\<lambda>n. True" "''hdsentinel''"]
  by (simp add: loop_defs text_defs Let_def)

lemma status_of_legacy_example:
  "status_of_legacy [(''temperature'', TInt), (''performance'', TFloat)]
     [(''Hard_Disk_Model_ID'', ''WD''), (''Temperature'', ''38 C''), (''Performance'', ''100 %'')]
   = Inr [(''hard_disk_model_id'', JStr ''WD''), (''temperature'', JInt 38),
          (''performance'', JFloat 100)]"
  by (simp add: status_of_legacy_def coerce_legacy_def to_number_legacy_def findall_digits_def
      item0_def int_of_digits_def text_defs Let_def)

text \<open>
  Claim C1. The published object is to map every attribute name to the value coerced to
  the type the expander resolved, as \<open>main_loop\<close> of the older script does. At this input
  the expander resolves \<open>int\<close> for the key \<open>temperature\<close>, and the older \<open>main_loop\<close>
  makes the number 38 of the attribute \<open>38 C\<close>; \<open>main_loop\<close> of \<open>hdsentinel_parser.py\<close>
  publishes the text \<open>38 C\<close> for it: the types are resolved and \<open>check_if_number\<close> is
  kept, and neither is used.
\<close>

theorem main_loop_publishes_uncoerced_text:
  "(let st = bootstrap (\<lambda>n. True) ''hdsentinel'' 600
               (Inr [(''sensor'', [(''temperature'', Some [(''_type'', ''int'')])])])
               [(''S1'', [(''Hard_Disk_Model_ID'', XText ''WD''), (''Temperature'', XText ''38 C'')])]
    in map (\<lambda>(s, c). (s, value_types c)) (configs st) = [(''S1'', [(''temperature'', TInt)])]
     \<and> sent_by ''S1'' (drop (length (events st)) (events
          (steady_cycle (\<lambda>n. True) ''hdsentinel'' st
             (Inr [(''S1'', [(''Hard_Disk_Model_ID'', XText ''WD''),
                             (''Temperature'', XText ''38 C'')])])))) =
         [Single \<lparr>msg_topic = ''hdsentinel/wd_s1/hdsentinel'',
                  msg_payload = Json (JObj [(''hard_disk_model_id'', JStr ''WD''),
                                             (''temperature'', JStr ''38 C'')]),
                  msg_retain = False\<rparr>,
          Single \<lparr>msg_topic = ''hdsentinel/wd_s1/availability'',
                  msg_payload = Raw ''online'', msg_retain = True\<rparr>]
     \<and> status_of_legacy [(''temperature'', TInt)]
          [(''Hard_Disk_Model_ID'', ''WD''), (''Temperature'', ''38 C'')]
        = Inr [(''hard_disk_model_id'', JStr ''WD''), (''temperature'', JInt 38)])"
  by (simp add: loop_defs text_defs alias_defs Let_def status_of_legacy_def coerce_legacy_def
      to_number_legacy_def findall_digits_def item0_def int_of_digits_def)

section \<open>Properties of Draining\<close>

lemma drain_clients_events:
  assumes "list_all (\<lambda>(s, c). published_status c \<noteq> Some ''offline'') cs"
  shows "\<exists>new. snd (drain_clients net cs evs) = evs @ new
      \<and> map (\<lambda>e. (ev_origin e, ev_call e)) new
          = map (\<lambda>(s, c). (s, Single (status_message c ''offline''))) cs"
  using assms
proof (induction cs arbitrary: evs)
  case Nil
  show ?case by simp
next
  case (Cons x cs)
  obtain s c where x: "x = (s, c)" by (cases x)
  let ?e = "\<lparr>ev_origin = s, ev_call = Single (status_message c ''offline''),
              ev_delivered = net (length evs)\<rparr>"
  from Cons.prems x have c: "published_status c \<noteq> Some ''offline''"
    and rest: "list_all (\<lambda>(s, c). published_status c \<noteq> Some ''offline'') cs" by simp_all
  obtain new where new: "snd (drain_clients net cs (evs @ [?e])) = (evs @ [?e]) @ new"
    and calls: "map (\<lambda>e. (ev_origin e, ev_call e)) new
          = map (\<lambda>(s, c). (s, Single (status_message c ''offline''))) cs"
    using Cons.IH [OF rest] by blast
  obtain rest' evs'' where dc: "drain_clients net cs (evs @ [?e]) = (rest', evs'')"
    by (cases "drain_clients net cs (evs @ [?e])")
  with new have "evs'' = evs @ (?e # new)" by simp
  with dc c have "snd (drain_clients net (x # cs) evs) = evs @ (?e # new)"
    by (simp add: x publish_offline_status_def publish_status_new)
  with calls show ?case
    by (intro exI [of _ "?e # new"]) (simp add: x)
qed

lemma register_disk_fresh:
  assumes "fresh_clients st"
  shows "fresh_clients (register_disk net t ui loaded st d)"
proof -
  have init: "published_status (HaCapableMqttClient_init b) = None" for b
    by (simp add: HaCapableMqttClient_init_def)
  from assms show ?thesis
    by (auto simp add: fresh_clients_def register_disk_def Let_def init dom_update
        intro!: list_all_update split: sum.split)
qed

lemma bootstrap_fresh: "fresh_clients (bootstrap net t ui loaded disks)"
proof -
  have "fresh_clients st \<Longrightarrow> fresh_clients (foldl (register_disk net t ui loaded) st disks)" for st
    by (induction disks arbitrary: st) (simp_all add: register_disk_fresh)
  then show ?thesis
    by (simp add: bootstrap_def fresh_clients_def)
qed

lemma fresh_drainable: "fresh_clients st \<Longrightarrow> drainable st"
  by (auto simp add: fresh_clients_def drainable_def list_all_iff)

lemma process_disk_drainable:
  assumes "drainable st"
  shows "drainable (process_disk net t st d)
       \<and> map fst (mqtt_clients (process_disk net t st d)) = map fst (mqtt_clients st)"
proof (cases "map_of (configs st) (fst d)")
  case None
  with assms show ?thesis by (simp add: process_disk_unknown)
next
  case (Some cfg)
  then have "fst d \<in> fst ` set (configs st)"
    by (metis map_of_eq_None_iff option.distinct(1))
  with assms have "fst d \<in> fst ` set (mqtt_clients st)"
    by (auto simp add: drainable_def)
  with assms show ?thesis
    by (auto simp add: process_disk_known [OF Some] drainable_def update_keys dom_update
        intro!: list_all_update)
qed

lemma foldl_process_disk_drainable:
  "drainable st \<Longrightarrow>
   drainable (foldl (process_disk net t) st ds)
   \<and> map fst (mqtt_clients (foldl (process_disk net t) st ds)) = map fst (mqtt_clients st)"
proof (induction ds arbitrary: st)
  case Nil
  then show ?case by simp
next
  case (Cons d ds)
  from process_disk_drainable [OF Cons.prems, of net t d]
  have 1: "drainable (process_disk net t st d)"
    and 2: "map fst (mqtt_clients (process_disk net t st d)) = map fst (mqtt_clients st)"
    by simp_all
  from Cons.IH [OF 1] 2 show ?case by simp
qed

lemma steady_cycle_drainable:
  "drainable st \<Longrightarrow>
   drainable (steady_cycle net t st polled)
   \<and> map fst (mqtt_clients (steady_cycle net t st polled)) = map fst (mqtt_clients st)"
  by (cases polled) (simp_all add: steady_cycle_def foldl_process_disk_drainable)

lemma steady_state_drainable:
  "drainable (steady_state net t ui loaded disks polls)
   \<and> map fst (mqtt_clients (steady_state net t ui loaded disks polls))
       = map fst (mqtt_clients (bootstrap net t ui loaded disks))"
proof -
  have "drainable st \<Longrightarrow>
      drainable (foldl (steady_cycle net t) st polls)
      \<and> map fst (mqtt_clients (foldl (steady_cycle net t) st polls)) = map fst (mqtt_clients st)" for st
  proof (induction polls arbitrary: st)
    case Nil
    then show ?case by simp
  next
    case (Cons p ps)
    from steady_cycle_drainable [OF Cons.prems, of net t p]
    have 1: "drainable (steady_cycle net t st p)"
      and 2: "map fst (mqtt_clients (steady_cycle net t st p)) = map fst (mqtt_clients st)"
      by simp_all
    from Cons.IH [OF 1] 2 show ?case by simp
  qed
  then show ?thesis
    by (simp add: steady_state_def fresh_drainable bootstrap_fresh)
qed

text \<open>
  Claim C5. In the state reached by Bootstrapping and any number of Steady cycles, whatever
  the transport does, every configured disk has a client, the clients are those of
  Bootstrapping, and Draining makes exactly one call for every client, in order: the
  offline message, retained, to the availability topic of the client. A failed call does
  not stop the calls for the later clients. (The test on the recorded status is still made;
  no client has recorded offline before Draining, so it never holds a message back.)
\<close>

theorem draining_publishes_offline_for_every_client:
  "fst ` set (configs (steady_state net t ui loaded disks polls))
      \<subseteq> fst ` set (mqtt_clients (steady_state net t ui loaded disks polls))
   \<and> map fst (mqtt_clients (steady_state net t ui loaded disks polls))
       = map fst (mqtt_clients (bootstrap net t ui loaded disks))
   \<and> take (length (events (steady_state net t ui loaded disks polls)))
        (events (drain net (steady_state net t ui loaded disks polls)))
       = events (steady_state net t ui loaded disks polls)
   \<and> map (\<lambda>e. (ev_origin e, ev_call e))
        (drop (length (events (steady_state net t ui loaded disks polls)))
           (events (drain net (steady_state net t ui loaded disks polls))))
       = map (\<lambda>(s, c). (s, Single (status_message c ''offline'')))
           (mqtt_clients (steady_state net t ui loaded disks polls))"
proof -
  let ?st = "steady_state net t ui loaded disks polls"
  have d: "drainable ?st"
    and k: "map fst (mqtt_clients ?st) = map fst (mqtt_clients (bootstrap net t ui loaded disks))"
    using steady_state_drainable by simp_all
  then obtain new where new: "snd (drain_clients net (mqtt_clients ?st) (events ?st)) = events ?st @ new"
    and calls: "map (\<lambda>e. (ev_origin e, ev_call e)) new
          = map (\<lambda>(s, c). (s, Single (status_message c ''offline''))) (mqtt_clients ?st)"
    using drain_clients_events [of "mqtt_clients ?st" net "events ?st"]
    by (auto simp add: drainable_def)
  have "events (drain net ?st) = snd (drain_clients net (mqtt_clients ?st) (events ?st))"
    by (simp add: drain_def split: prod.split)
  with new have "events (drain net ?st) = events ?st @ new" by simp
  with calls d k show ?thesis
    by (simp add: drainable_def)
qed

theorem draining_publishes_offline_for_every_client_witness:
  "(let st = steady_state (\<lambda>n. False) ''hdsentinel'' 600
               (Inr [(''sensor'', [(''temperature'', Some [(''_type'', ''int'')])])])
               [(''S1'', [(''Hard_Disk_Model_ID'', XText ''WD'')]),
                (''S2'', [(''Hard_Disk_Model_ID'', XText ''WD'')])]
               [Inr [(''S1'', [(''Hard_Disk_Model_ID'', XText ''WD'')])]]
    in map (\<lambda>e. (ev_origin e, ev_call e, ev_delivered e))
         (drop (length (events st)) (events (drain (\<lambda>n. False) st))) =
       [(''S1'', Single \<lparr>msg_topic = ''hdsentinel/wd_s1/availability'',
                          msg_payload = Raw ''offline'', msg_retain = True\<rparr>, False),
        (''S2'', Single \<lparr>msg_topic = ''hdsentinel/wd_s2/availability'',
                          msg_payload = Raw ''offline'', msg_retain = True\<rparr>, False)])"
  using draining_publishes_offline_for_every_client [of "\<lambda>n. False" "''hdsentinel''" 600
      "Inr [(''sensor'', [(''temperature'', Some [(''_type'', ''int'')])])]"
      "[(''S1'', [(''Hard_Disk_Model_ID'', XText ''WD'')]),
        (''S2'', [(''Hard_Disk_Model_ID'', XText ''WD'')])]"
      "[Inr [(''S1'', [(''Hard_Disk_Model_ID'', XText ''WD'')])]]"]
  by (simp add: loop_defs2 text_defs alias_defs Let_def)

end
